theory Spec2Isabelle
  imports Main "HOL-Library.Sublist"
begin

section \<open>Go library functions used by the plugin client\<close>

text \<open>
  Go strings and byte slices are sequences of bytes: \<open>string\<close> (a \<open>char list\<close>).
  A Go \<open>error\<close> value is modelled by its message; \<open>nil\<close> is \<open>None\<close>.
\<close>

type_synonym error = "string option"

definition errors_New :: "string \<Rightarrow> error" where
  "errors_New msg = Some msg"

definition newline :: char where
  "newline = CHR 0x0A"

text \<open>
  \<open>bytes.Buffer.ReadBytes(delim)\<close> on the unread part \<open>buf\<close> of a buffer. With a
  delimiter present it returns the bytes up to and including the first delimiter and a
  nil error; without one it returns everything that was unread together with \<open>io.EOF\<close>.
  In both cases the returned bytes are consumed. The result is
  \<open>((line, eof), rest)\<close>, where \<open>eof\<close> says that the error is \<open>io.EOF\<close>.
\<close>

definition ReadBytes :: "char \<Rightarrow> string \<Rightarrow> (string \<times> bool) \<times> string" where
  "ReadBytes delim buf =
     (if delim \<in> set buf
      then ((takeWhile (\<lambda>b. b \<noteq> delim) buf @ [delim], False),
            tl (dropWhile (\<lambda>b. b \<noteq> delim) buf))
      else ((buf, True), []))"

text \<open>\<open>bytes.Buffer.ReadString\<close> is \<open>ReadBytes\<close> with the result converted to a string.\<close>

definition ReadString :: "char \<Rightarrow> string \<Rightarrow> (string \<times> bool) \<times> string" where
  "ReadString delim buf = ReadBytes delim buf"

text \<open>
  \<open>unicode.IsSpace\<close>: the UTF-8 encodings of the code points with the Unicode
  White_Space property: U+0009..U+000D, U+0020, U+0085, U+00A0, U+1680, U+2000..U+200A,
  U+2028, U+2029, U+202F, U+205F, U+3000.
\<close>

definition White_Space :: "string list" where
  "White_Space =
     [[CHR 0x09], [CHR 0x0A], [CHR 0x0B], [CHR 0x0C], [CHR 0x0D], [CHR 0x20],
      [CHR 0xC2, CHR 0x85], [CHR 0xC2, CHR 0xA0],
      [CHR 0xE1, CHR 0x9A, CHR 0x80],
      [CHR 0xE2, CHR 0x80, CHR 0x80], [CHR 0xE2, CHR 0x80, CHR 0x81],
      [CHR 0xE2, CHR 0x80, CHR 0x82], [CHR 0xE2, CHR 0x80, CHR 0x83],
      [CHR 0xE2, CHR 0x80, CHR 0x84], [CHR 0xE2, CHR 0x80, CHR 0x85],
      [CHR 0xE2, CHR 0x80, CHR 0x86], [CHR 0xE2, CHR 0x80, CHR 0x87],
      [CHR 0xE2, CHR 0x80, CHR 0x88], [CHR 0xE2, CHR 0x80, CHR 0x89],
      [CHR 0xE2, CHR 0x80, CHR 0x8A],
      [CHR 0xE2, CHR 0x80, CHR 0xA8], [CHR 0xE2, CHR 0x80, CHR 0xA9],
      [CHR 0xE2, CHR 0x80, CHR 0xAF],
      [CHR 0xE2, CHR 0x81, CHR 0x9F],
      [CHR 0xE3, CHR 0x80, CHR 0x80]]"

text \<open>
  The number of bytes of the white-space rune a string starts with (ends with), and 0 when
  it starts (ends) with anything else, an invalid encoding included: Go decodes that as
  U+FFFD, which is no space.
\<close>

definition leading_space :: "string \<Rightarrow> nat" where
  "leading_space s = (case find (\<lambda>w. prefix w s) White_Space of None \<Rightarrow> 0 | Some w \<Rightarrow> length w)"

definition trailing_space :: "string \<Rightarrow> nat" where
  "trailing_space s = (case find (\<lambda>w. suffix w s) White_Space of None \<Rightarrow> 0 | Some w \<Rightarrow> length w)"

text \<open>\<open>strings.TrimLeftFunc(s, unicode.IsSpace)\<close> and \<open>strings.TrimRightFunc\<close>.\<close>

function TrimLeft :: "string \<Rightarrow> string" where
  "TrimLeft s = (if leading_space s = 0 then s else TrimLeft (drop (leading_space s) s))"
  by pat_completeness auto
termination
proof (relation "measure length")
  fix s :: string
  assume "leading_space s \<noteq> 0"
  then obtain w where "prefix w s" "w \<noteq> []"
    by (auto simp: leading_space_def find_Some_iff split: option.splits)
  then have "s \<noteq> []" by auto
  with \<open>leading_space s \<noteq> 0\<close> show "(drop (leading_space s) s, s) \<in> measure length"
    by simp
qed simp

function TrimRight :: "string \<Rightarrow> string" where
  "TrimRight s =
     (if trailing_space s = 0 then s else TrimRight (take (length s - trailing_space s) s))"
  by pat_completeness auto
termination
proof (relation "measure length")
  fix s :: string
  assume "trailing_space s \<noteq> 0"
  then obtain w where "suffix w s" "w \<noteq> []"
    by (auto simp: trailing_space_def find_Some_iff split: option.splits)
  then have "s \<noteq> []" by auto
  with \<open>trailing_space s \<noteq> 0\<close>
  show "(take (length s - trailing_space s) s, s) \<in> measure length"
    by simp
qed simp

declare TrimLeft.simps [simp del] TrimRight.simps [simp del]

text \<open>\<open>strings.TrimSpace(s)\<close> is \<open>TrimFunc(s, unicode.IsSpace)\<close>: left, then right.\<close>

definition TrimSpace :: "string \<Rightarrow> string" where
  "TrimSpace s = TrimRight (TrimLeft s)"

section \<open>The plugin client (packer/plugin/client.go)\<close>

subsection \<open>Data\<close>

text \<open>
  The part of \<open>exec.Cmd\<close> the client touches: the environment list, whether
  \<open>cmd.Process\<close> is non-nil, and the writers \<open>cmd.Stdout\<close> and \<open>cmd.Stderr\<close>.
  A writer is nil (\<open>None\<close>) or a buffer, named by a number.
\<close>

record Cmd =
  Env :: "string list"
  Process :: bool
  Stdout :: "nat option"
  Stderr :: "nat option"

text \<open>
  The operating system's side of a client: no process yet, a running process, or a process
  that has terminated with an exit status and whose output has been copied completely into
  the stdout and stderr buffers (which is when \<open>cmd.Wait()\<close> returns).
\<close>

datatype proc_state = NotStarted | Running | Finished int

text \<open>
  Program counters of the goroutines that belong to a client: the exit watcher
  (client.go lines 115-119), \<open>logStderr\<close> (lines 187-207) and the activations of
  \<open>Kill\<close> (lines 167-185).
\<close>

datatype watcher_pc = W_none | W_wait | W_log | W_set | W_done

datatype logger_pc = L_none | L_top | L_drain bool | L_set | L_done

datatype kill_pc = K_entry | K_signal | K_poll | K_notify | K_ret_noop | K_ret_waited

datatype log_entry = ExitNotice | StderrLine string

text \<open>
  \<open>struct client { cmd; exited; doneLogging }\<close> together with the state the struct
  refers to: the process, the stderr buffer handed to \<open>logStderr\<close>, the goroutines and
  the log sink. \<open>stderr_all\<close> records every byte the process has written to stderr,
  \<open>signals\<close> counts the calls of \<open>cmd.Process.Kill()\<close> and \<open>buffers\<close> the
  buffers that \<open>Start\<close> has made with \<open>new(bytes.Buffer)\<close>, which gives each new
  buffer its number.
\<close>

record handle =
  cmd :: Cmd
  exited :: bool
  doneLogging :: bool
  proc :: proc_state
  signals :: nat
  stderr_buf :: string
  stderr_all :: string
  watcher :: watcher_pc
  logger :: logger_pc
  kills :: "kill_pc list"
  log_sink :: "log_entry list"
  buffers :: nat

definition NewClient :: "Cmd \<Rightarrow> handle" where
  "NewClient c =
     \<lparr>cmd = c, exited = False, doneLogging = False,
      proc = NotStarted, signals = 0, stderr_buf = [], stderr_all = [],
      watcher = W_none, logger = L_none, kills = [], log_sink = [], buffers = 0\<rparr>"

definition Exited :: "handle \<Rightarrow> bool" where
  "Exited c = exited c"

subsection \<open>Start\<close>

text \<open>
  \<open>exec.Cmd.Start()\<close>: fails on a command that already has a process, otherwise asks
  the operating system, whose answer \<open>os\<close> is an input (\<open>None\<close>: the process was
  created).
\<close>

definition cmd_Start :: "error \<Rightarrow> handle \<Rightarrow> error \<times> handle" where
  "cmd_Start os c =
     (if Process (cmd c) then (errors_New ''exec: already started'', c)
      else case os of
             Some e \<Rightarrow> (Some e, c)
           | None \<Rightarrow> (None, c\<lparr>cmd := (cmd c)\<lparr>Process := True\<rparr>, proc := Running\<rparr>))"

text \<open>
  Lines 86-122 of \<open>Start\<close>: make the two buffers, extend the environment, point
  \<open>cmd.Stderr\<close> and \<open>cmd.Stdout\<close> to the buffers, start the command, return its
  error at once, otherwise spawn the exit watcher and \<open>logStderr\<close>.
\<close>

definition Start_launch :: "error \<Rightarrow> handle \<Rightarrow> error \<times> handle" where
  "Start_launch os c =
     (let env = [''PACKER_PLUGIN_MIN_PORT=10000'', ''PACKER_PLUGIN_MAX_PORT=25000''];
          stdout = buffers c;
          stderr = Suc (buffers c);
          c1 = c\<lparr>cmd := (cmd c)\<lparr>Env := Env (cmd c) @ env,
                                    Stderr := Some stderr, Stdout := Some stdout\<rparr>,
                 buffers := buffers c + 2\<rparr>;
          (err, c2) = cmd_Start os c1
      in if err \<noteq> None then (err, c2)
         else (None, c2\<lparr>watcher := W_wait, logger := L_top\<rparr>))"

text \<open>
  One iteration of the polling loop (lines 128-156). What the iteration reads from its
  surroundings is an input: whether the timeout channel is ready at the \<open>select\<close>, the
  value of \<open>c.Exited()\<close>, and the unread content of the stdout buffer at the call of
  \<open>ReadBytes\<close>. The variable \<open>done\<close> is set only together with \<open>err\<close>, and the
  iteration then leaves the loop by \<open>break\<close> or \<open>return\<close>, so the loop condition
  never reads it as true.
\<close>

datatype iter = Return "string \<times> error" | Continue string

definition Start_iter :: "bool \<Rightarrow> bool \<Rightarrow> string \<Rightarrow> iter" where
  "Start_iter timeout exited_now buf =
     (let err = (if timeout then errors_New ''timeout while waiting for plugin to start''
                 else None);
          err = (if err = None \<and> exited_now
                 then errors_New ''plugin exited before we could connect'' else err);
          ((line, eof), rest) = ReadBytes newline buf
      in if \<not> eof then Return (TrimSpace line, None)
         else if err \<noteq> None then Return ([], err)
         else Continue rest)"

text \<open>
  The loop runs against a trace of polls, one per iteration: \<open>stdout_written\<close> holds the
  bytes that have reached the stdout buffer since the previous \<open>ReadBytes\<close>. The result
  is \<open>None\<close> when the trace ends before the loop does.
\<close>

record poll =
  timeout_fired :: bool
  exited_seen :: bool
  stdout_written :: string

fun Start_loop :: "poll list \<Rightarrow> string \<Rightarrow> (string \<times> error) option" where
  "Start_loop [] buf = None"
| "Start_loop (p # ps) buf =
     (case Start_iter (timeout_fired p) (exited_seen p) (buf @ stdout_written p) of
        Return r \<Rightarrow> Some r
      | Continue rest \<Rightarrow> Start_loop ps rest)"

text \<open>
  \<open>Start\<close>: the launch, then the loop on a fresh stdout buffer; the deferred function
  kills the process when the loop ends with an error (nothing in the loop panics, so its
  \<open>recover\<close> finds nothing). The handle returned carries the writes of \<open>Start\<close>
  itself; the goroutines it has spawned run in the step function below.
\<close>

definition Start :: "error \<Rightarrow> poll list \<Rightarrow> handle \<Rightarrow> ((string \<times> error) \<times> handle) option" where
  "Start os ps c =
     (case Start_launch os c of
        (Some e, c') \<Rightarrow> Some (([], Some e), c')
      | (None, c') \<Rightarrow>
          (case Start_loop ps [] of
             None \<Rightarrow> None
           | Some (address, err) \<Rightarrow>
               Some ((address, err),
                     if err \<noteq> None then c'\<lparr>signals := Suc (signals c')\<rparr> else c')))"

text \<open>
  A poll in which nothing happens: the timer has not fired, the exit flag reads false and no
  newline has reached the buffer.
\<close>

definition quiet :: "poll \<Rightarrow> bool" where
  "quiet p \<longleftrightarrow> \<not> timeout_fired p \<and> \<not> exited_seen p \<and> newline \<notin> set (stdout_written p)"

subsection \<open>The goroutines of one client\<close>

text \<open>
  The exit watcher: \<open>c.cmd.Wait()\<close> blocks until the process has finished, its result
  is discarded; then the notice is logged and \<open>c.exited\<close> is set.
\<close>

definition watcher_step :: "handle \<Rightarrow> handle" where
  "watcher_step c =
     (case watcher c of
        W_wait \<Rightarrow> (case proc c of Finished status \<Rightarrow> c\<lparr>watcher := W_log\<rparr> | _ \<Rightarrow> c)
      | W_log \<Rightarrow> c\<lparr>log_sink := log_sink c @ [ExitNotice], watcher := W_set\<rparr>
      | W_set \<Rightarrow> c\<lparr>exited := True, watcher := W_done\<rparr>
      | _ \<Rightarrow> c)"

text \<open>
  \<open>logStderr\<close>. \<open>L_top\<close>: the test of \<open>c.Exited()\<close> at the head of the outer loop;
  \<open>L_drain done\<close>: one \<open>ReadString\<close> of the inner loop with the line logged when it is
  not empty; after \<open>io.EOF\<close> the sleep and the test of \<open>done\<close>; \<open>L_set\<close>: the
  assignment to \<open>c.doneLogging\<close>.
\<close>

definition logStderr_step :: "handle \<Rightarrow> handle" where
  "logStderr_step c =
     (case logger c of
        L_top \<Rightarrow> c\<lparr>logger := L_drain (Exited c)\<rparr>
      | L_drain done \<Rightarrow>
          (let ((line, eof), rest) = ReadString newline (stderr_buf c);
               c' = c\<lparr>stderr_buf := rest,
                       log_sink := (if line \<noteq> [] then log_sink c @ [StderrLine line]
                                    else log_sink c)\<rparr>
           in if eof then c'\<lparr>logger := (if done then L_set else L_top)\<rparr> else c')
      | L_set \<Rightarrow> c\<lparr>doneLogging := True, logger := L_done\<rparr>
      | _ \<Rightarrow> c)"

text \<open>
  \<open>Kill\<close>, activation \<open>j\<close>. \<open>K_entry\<close>: the test \<open>c.cmd.Process == nil\<close>;
  \<open>K_signal\<close>: \<open>c.cmd.Process.Kill()\<close>; \<open>K_poll\<close>: the polling goroutine reads
  \<open>c.doneLogging\<close> and sleeps while it is false; \<open>K_notify\<close>: the exchange on the
  channel \<open>done\<close>, after which \<open>Kill\<close> returns.
\<close>

definition Kill_step :: "nat \<Rightarrow> handle \<Rightarrow> handle" where
  "Kill_step j c =
     (if j < length (kills c) then
        (case kills c ! j of
           K_entry \<Rightarrow>
             c\<lparr>kills := (kills c)[j := (if Process (cmd c) then K_signal else K_ret_noop)]\<rparr>
         | K_signal \<Rightarrow> c\<lparr>signals := Suc (signals c), kills := (kills c)[j := K_poll]\<rparr>
         | K_poll \<Rightarrow> (if doneLogging c then c\<lparr>kills := (kills c)[j := K_notify]\<rparr> else c)
         | K_notify \<Rightarrow> c\<lparr>kills := (kills c)[j := K_ret_waited]\<rparr>
         | _ \<Rightarrow> c)
      else c)"

text \<open>
  What can happen to a client, one atomic action at a time: the host calls \<open>Start\<close> (the
  launch, with the operating system's answer), the deferred function of a \<open>Start\<close> that
  ends in an error kills the process, the process writes to stderr, the process finishes
  with a status, a goroutine takes a step, the host calls \<open>Kill\<close>. An action that is not
  possible in a state leaves the state as it is.
\<close>

datatype event =
    EvStart error
  | EvStartAbort
  | EvStderr string
  | EvFinish int
  | EvWatcher
  | EvLogger
  | EvKillCall
  | EvKill nat

fun step :: "event \<Rightarrow> handle \<Rightarrow> handle" where
  "step (EvStart os) c = snd (Start_launch os c)"
| "step EvStartAbort c = (if Process (cmd c) then c\<lparr>signals := Suc (signals c)\<rparr> else c)"
| "step (EvStderr bs) c =
     (if proc c = Running
      then c\<lparr>stderr_buf := stderr_buf c @ bs, stderr_all := stderr_all c @ bs\<rparr> else c)"
| "step (EvFinish status) c = (if proc c = Running then c\<lparr>proc := Finished status\<rparr> else c)"
| "step EvWatcher c = watcher_step c"
| "step EvLogger c = logStderr_step c"
| "step EvKillCall c = c\<lparr>kills := kills c @ [K_entry]\<rparr>"
| "step (EvKill j) c = Kill_step j c"

definition run :: "event list \<Rightarrow> handle \<Rightarrow> handle" where
  "run evs c = fold step evs c"

text \<open>
  \<open>Start\<close> beside the goroutines. Before each iteration of the polling loop the process
  and the goroutines take the steps \<open>before\<close>; the iteration then reads \<open>c.Exited()\<close>
  from the client as those steps have left it. \<open>fired\<close> says whether the timer has
  fired and \<open>written\<close> holds the bytes that have reached the stdout buffer since the
  previous iteration. \<open>Start_beside\<close> is what \<open>Start\<close> returns in such a run.
\<close>

record tick =
  before :: "event list"
  fired :: bool
  written :: string







text \<open>The stderr bytes that have been forwarded to the log sink.\<close>

fun forwarded :: "log_entry list \<Rightarrow> string" where
  "forwarded [] = []"
| "forwarded (ExitNotice # es) = forwarded es"
| "forwarded (StderrLine l # es) = l @ forwarded es"

text \<open>
  The facts that hold of a client in every state it can reach. Without a process nothing
  has been spawned and no flag is set; once the watcher has left \<open>cmd.Wait()\<close>, and so
  once \<open>exited\<close> is set, the process is not running; \<open>logStderr\<close> leaves its loop
  only with \<open>exited\<close> set and passes its last \<open>io.EOF\<close> with the buffer empty; an
  activation of \<open>Kill\<close> passes its wait only with \<open>doneLogging\<close> set; and what has
  been forwarded to the log followed by what is still in the buffer is what the process
  has written.
\<close>

definition started_ok :: "handle \<Rightarrow> bool" where
  "started_ok c \<longleftrightarrow>
     Process (cmd c)
   \<or> (watcher c = W_none \<and> logger c = L_none \<and> \<not> exited c \<and> \<not> doneLogging c
      \<and> proc c = NotStarted)"

definition watcher_ok :: "handle \<Rightarrow> bool" where
  "watcher_ok c \<longleftrightarrow>
     (watcher c = W_log \<or> watcher c = W_set \<or> watcher c = W_done \<or> exited c
        \<longrightarrow> proc c \<noteq> Running)"

definition logger_ok :: "handle \<Rightarrow> bool" where
  "logger_ok c \<longleftrightarrow>
     (logger c = L_drain True \<or> logger c = L_set \<or> logger c = L_done \<or> doneLogging c
        \<longrightarrow> exited c)
   \<and> (logger c = L_set \<or> logger c = L_done \<or> doneLogging c \<longrightarrow> stderr_buf c = [])"

definition kills_ok :: "handle \<Rightarrow> bool" where
  "kills_ok c \<longleftrightarrow>
     (K_notify \<in> set (kills c) \<or> K_ret_waited \<in> set (kills c) \<longrightarrow> doneLogging c)"

definition log_ok :: "handle \<Rightarrow> bool" where
  "log_ok c \<longleftrightarrow> forwarded (log_sink c) @ stderr_buf c = stderr_all c"

definition client_inv :: "handle \<Rightarrow> bool" where
  "client_inv c \<longleftrightarrow> started_ok c \<and> watcher_ok c \<and> logger_ok c \<and> kills_ok c \<and> log_ok c"

subsection \<open>The registry and CleanupClients\<close>

text \<open>
  The clients live in a heap and are named by their index. Each iteration of the
  \<open>range\<close> loop of \<open>CleanupClients\<close> has its own variable \<open>client\<close>, which holds
  the element of that iteration and is never assigned again; the function literal of the
  goroutine spawned in the iteration refers to that variable, so the goroutine carries the
  element.
\<close>

datatype cleanup_pc = C_idle | C_range nat | C_add nat | C_go nat | C_wait | C_ret

datatype go_pc = G_new nat | G_kill nat nat | G_done nat nat | G_end nat nat

record world =
  heap :: "handle list"
  managedClients :: "nat list"
  cleanup :: cleanup_pc
  wg :: nat
  goroutines :: "go_pc list"

definition init_world :: world where
  "init_world =
     \<lparr>heap = [], managedClients = [], cleanup = C_idle, wg = 0, goroutines = []\<rparr>"

definition NewManagedClient :: "Cmd \<Rightarrow> world \<Rightarrow> nat \<times> world" where
  "NewManagedClient c w =
     (let result = length (heap w)
      in (result, w\<lparr>heap := heap w @ [NewClient c],
                     managedClients := managedClients w @ [result]\<rparr>))"

text \<open>The host's startup: one managed client for each command, in order.\<close>

definition startup :: "Cmd list \<Rightarrow> world" where
  "startup cs = fold (\<lambda>c w. snd (NewManagedClient c w)) cs init_world"

text \<open>
  The body of \<open>CleanupClients\<close>. \<open>C_range i\<close>: the \<open>range\<close> clause makes the
  variable \<open>client\<close> of iteration \<open>i\<close> or leaves the loop; \<open>C_add\<close>:
  \<open>wg.Add(1)\<close>; \<open>C_go\<close>: the \<open>go\<close> statement; \<open>C_wait\<close>: \<open>wg.Wait()\<close>, which
  blocks while the counter is not 0 (the line logged before it changes nothing here).
\<close>

definition Cleanup_step :: "world \<Rightarrow> world" where
  "Cleanup_step w =
     (case cleanup w of
        C_idle \<Rightarrow> w\<lparr>wg := 0, cleanup := C_range 0\<rparr>
      | C_range i \<Rightarrow>
          (if i < length (managedClients w) then w\<lparr>cleanup := C_add i\<rparr>
           else w\<lparr>cleanup := C_wait\<rparr>)
      | C_add i \<Rightarrow> w\<lparr>wg := Suc (wg w), cleanup := C_go i\<rparr>
      | C_go i \<Rightarrow>
          w\<lparr>goroutines := goroutines w @ [G_new (managedClients w ! i)],
            cleanup := C_range (Suc i)\<rparr>
      | C_wait \<Rightarrow> (if wg w = 0 then w\<lparr>cleanup := C_ret\<rparr> else w)
      | C_ret \<Rightarrow> w)"

text \<open>
  Goroutine \<open>j\<close> of \<open>CleanupClients\<close>: \<open>client.Kill(); wg.Done()\<close>. \<open>G_new a\<close>:
  it enters \<open>Kill\<close> on its client \<open>a\<close>; \<open>G_kill a k\<close>: it runs activation \<open>k\<close>
  of \<open>Kill\<close> on client \<open>a\<close> until that has returned; \<open>G_done\<close>: \<open>wg.Done()\<close>;
  \<open>G_end\<close>: the goroutine has ended.
\<close>

definition returned :: "kill_pc \<Rightarrow> bool" where
  "returned k \<longleftrightarrow> k = K_ret_noop \<or> k = K_ret_waited"

definition Go_step :: "nat \<Rightarrow> world \<Rightarrow> world" where
  "Go_step j w =
     (if j < length (goroutines w) then
        (case goroutines w ! j of
           G_new a \<Rightarrow>
             (if a < length (heap w)
              then w\<lparr>heap := (heap w)[a := step EvKillCall (heap w ! a)],
                      goroutines := (goroutines w)[j := G_kill a (length (kills (heap w ! a)))]\<rparr>
              else w)
         | G_kill a k \<Rightarrow>
             (if returned (kills (heap w ! a) ! k)
              then w\<lparr>goroutines := (goroutines w)[j := G_done a k]\<rparr>
              else w\<lparr>heap := (heap w)[a := Kill_step k (heap w ! a)]\<rparr>)
         | G_done a k \<Rightarrow> w\<lparr>wg := wg w - 1, goroutines := (goroutines w)[j := G_end a k]\<rparr>
         | G_end a k \<Rightarrow> w)
      else w)"

datatype world_event = WClient nat event | WCleanup | WGo nat

fun world_step :: "world_event \<Rightarrow> world \<Rightarrow> world" where
  "world_step (WClient a ev) w =
     (if a < length (heap w) then w\<lparr>heap := (heap w)[a := step ev (heap w ! a)]\<rparr> else w)"
| "world_step WCleanup w = Cleanup_step w"
| "world_step (WGo j) w = Go_step j w"

definition world_run :: "world_event list \<Rightarrow> world \<Rightarrow> world" where
  "world_run evs w = fold world_step evs w"












definition spawned_first :: "world_event list" where
  "spawned_first =
     [WClient 0 (EvStart None), WClient 1 (EvStart None),
      WCleanup, WCleanup, WCleanup, WCleanup, WGo 0,
      WCleanup, WCleanup, WCleanup, WGo 1, WCleanup,
      WGo 0, WGo 0, WGo 1, WGo 1,
      WClient 0 (EvFinish (- 1)), WClient 1 (EvFinish (- 1)),
      WClient 0 EvWatcher, WClient 0 EvWatcher, WClient 0 EvWatcher,
      WClient 1 EvWatcher, WClient 1 EvWatcher, WClient 1 EvWatcher,
      WClient 0 EvLogger, WClient 0 EvLogger, WClient 0 EvLogger,
      WClient 1 EvLogger, WClient 1 EvLogger, WClient 1 EvLogger,
      WGo 0, WGo 0, WGo 0, WGo 0, WGo 1, WGo 1, WGo 1, WGo 1,
      WCleanup]"

text \<open>
  A run of one client used as a concrete input: started, it writes to stderr, \<open>Kill\<close>
  is called and signals, the process finishes, the watcher and \<open>logStderr\<close> complete,
  \<open>Kill\<close> returns.
\<close>

definition killed_run :: "event list" where
  "killed_run =
     [EvKill 0, EvKill 0, EvStderr (''!'' @ [newline] @ ''x''),
      EvLogger, EvLogger, EvLogger, EvFinish (- 1),
      EvWatcher, EvWatcher, EvWatcher, EvKill 0,
      EvLogger, EvLogger, EvLogger, EvLogger, EvKill 0, EvKill 0]"

section \<open>The environment over RPC (packer/rpc/environment.go)\<close>

text \<open>
  \<open>e.client.Call(method, args, &reply)\<close> as a function: from the method name, the
  arguments, the value of the reply variable before the call and the state beyond the
  connection, to the value of the reply variable after the call, the error and the new
  state. \<open>rpc.Dial("tcp", address)\<close> returns a client or nil, and an error.
\<close>

type_synonym ('a, 'r, 'w) Call = "string \<Rightarrow> 'a \<Rightarrow> 'r \<Rightarrow> 'w \<Rightarrow> ('r \<times> error) \<times> 'w"

type_synonym ('c, 'w) Dial = "string \<Rightarrow> string \<Rightarrow> 'w \<Rightarrow> ('c option \<times> error) \<times> 'w"

record EnvironmentCliArgs =
  Args :: "string list"

text \<open>
  The stubs returned for interface results: \<open>Builder(client)\<close> and \<open>&Ui{client}\<close>,
  the latter around a client that may be nil.
\<close>

datatype 'c Builder = Builder "'c option"

datatype 'c Ui = Ui "'c option"

definition Environment_Builder ::
    "(string, string, 'w) Call \<Rightarrow> ('c, 'w) Dial \<Rightarrow> string \<Rightarrow> 'w \<Rightarrow> ('c Builder option \<times> error) \<times> 'w" where
  "Environment_Builder call dial name w =
     (let ((reply, err), w1) = call ''Environment.Builder'' name [] w
      in if err \<noteq> None then ((None, err), w1)
         else (let ((client, err), w2) = dial ''tcp'' reply w1
               in if err \<noteq> None then ((None, err), w2)
                  else ((Some (Builder client), None), w2)))"

definition Environment_Cli ::
    "(EnvironmentCliArgs, int, 'w) Call \<Rightarrow> string list \<Rightarrow> 'w \<Rightarrow> (int \<times> error) \<times> 'w" where
  "Environment_Cli call args w =
     (let rpcArgs = \<lparr>Args = args\<rparr>;
          ((result, err), w1) = call ''Environment.Cli'' rpcArgs 0 w
      in ((result, err), w1))"

definition Environment_Ui :: "(unit, string, 'w) Call \<Rightarrow> ('c, 'w) Dial \<Rightarrow> 'w \<Rightarrow> 'c Ui \<times> 'w" where
  "Environment_Ui call dial w =
     (let ((reply, _), w1) = call ''Environment.Ui'' () [] w;
          ((client, _), w2) = dial ''tcp'' reply w1
      in (Ui client, w2))"

text \<open>
  The served side of \<open>Cli\<close>. A \<open>packer.Environment\<close> is an object with a state of its
  own; of its methods only \<open>Cli\<close> returns plain values.
\<close>

record 'w Environment =
  Cli :: "string list \<Rightarrow> 'w \<Rightarrow> (int \<times> error) \<times> 'w"

record 'w EnvironmentServer =
  env :: "'w Environment"

definition EnvironmentServer_Cli ::
    "'w EnvironmentServer \<Rightarrow> EnvironmentCliArgs \<Rightarrow> int \<Rightarrow> 'w \<Rightarrow> (int \<times> error) \<times> 'w" where
  "EnvironmentServer_Cli e args reply w =
     (let ((reply, err), w1) = Cli (env e) (Args args) w in ((reply, err), w1))"

text \<open>
  \<open>net/rpc\<close> between a client and a server with one registered method. A call on a
  connection that is shut down fails without reaching the server, and so does a call of a
  method that is not registered. Otherwise the method runs once, on the arguments and a
  fresh reply value. The package documents: ``The return value of the method, if non-nil,
  is passed back as a string that the client sees as if created by errors.New. If an error
  is returned, the reply parameter will not be sent back to the client.'' The response
  carries the error as its message, and the empty message stands for no error.
\<close>

definition rpc_Call ::
    "bool \<Rightarrow> string \<Rightarrow> ('a \<Rightarrow> 'r \<Rightarrow> 'w \<Rightarrow> ('r \<times> error) \<times> 'w) \<Rightarrow> 'r \<Rightarrow> ('a, 'r, 'w) Call" where
  "rpc_Call up registered method zero name args reply w =
     (if \<not> up then ((reply, errors_New ''connection is shut down''), w)
      else if name \<noteq> registered
      then ((reply, errors_New (''rpc: can't find method '' @ name)), w)
      else (let ((r, err), w1) = method args zero w
            in case err of
                 None \<Rightarrow> ((r, None), w1)
               | Some msg \<Rightarrow> if msg = [] then ((r, None), w1) else ((reply, Some msg), w1)))"

text \<open>
  Implementations and networks used as concrete inputs: an implementation that fails with
  exit code 1, one that records the argument lists it is called with, a connection that
  is shut down and a dialer that reaches nobody.
\<close>

definition failing_env :: "unit Environment" where
  "failing_env = \<lparr>Cli = (\<lambda>args w. ((1, errors_New ''boom''), w))\<rparr>"

definition recording_env :: "string list list Environment" where
  "recording_env = \<lparr>Cli = (\<lambda>args w. ((int (length args), None), w @ [args]))\<rparr>"

definition call_shut_down :: "('a, 'r, unit) Call" where
  "call_shut_down name args reply w = ((reply, errors_New ''connection is shut down''), w)"

definition dial_refused :: "(unit, unit) Dial" where
  "dial_refused network address w = ((None, errors_New ''connection refused''), w)"

section \<open>Properties of Start\<close>

lemma ReadBytes_line:
  "delim \<in> set buf \<Longrightarrow>
   ReadBytes delim buf =
     ((takeWhile (\<lambda>b. b \<noteq> delim) buf @ [delim], False), tl (dropWhile (\<lambda>b. b \<noteq> delim) buf))"
  by (simp add: ReadBytes_def)

lemma ReadBytes_eof: "delim \<notin> set buf \<Longrightarrow> ReadBytes delim buf = ((buf, True), [])"
  by (simp add: ReadBytes_def)

lemma ReadBytes_append:
  "delim \<notin> set l \<Longrightarrow> ReadBytes delim (l @ delim # rest) = ((l @ [delim], False), rest)"
  by (simp add: ReadBytes_def takeWhile_tail dropWhile_append)

lemma ReadBytes_forward:
  "ReadBytes d buf = ((line, eof), rest) \<Longrightarrow> line @ rest = buf \<and> (eof \<longrightarrow> rest = [])"
proof (cases "d \<in> set buf")
  case True
  then have "dropWhile (\<lambda>b. b \<noteq> d) buf \<noteq> []"
    by (simp add: dropWhile_eq_Nil_conv)
  moreover have "hd (dropWhile (\<lambda>b. b \<noteq> d) buf) = d"
    using calculation hd_dropWhile [of "\<lambda>b. b \<noteq> d" buf] by simp
  ultimately have "d # tl (dropWhile (\<lambda>b. b \<noteq> d) buf) = dropWhile (\<lambda>b. b \<noteq> d) buf"
    by (metis list.collapse)
  then have "(takeWhile (\<lambda>b. b \<noteq> d) buf @ [d]) @ tl (dropWhile (\<lambda>b. b \<noteq> d) buf) = buf"
    by simp
  moreover assume "ReadBytes d buf = ((line, eof), rest)"
  ultimately show ?thesis
    using True by (auto simp: ReadBytes_def)
next
  case False
  moreover assume "ReadBytes d buf = ((line, eof), rest)"
  ultimately show ?thesis
    by (auto simp: ReadBytes_def)
qed

lemma Start_iter_line:
  "newline \<in> set buf \<Longrightarrow>
   Start_iter t e buf = Return (TrimSpace (takeWhile (\<lambda>b. b \<noteq> newline) buf @ [newline]), None)"
  by (simp add: Start_iter_def ReadBytes_line)

lemma Start_iter_timeout:
  "newline \<notin> set buf \<Longrightarrow> t \<Longrightarrow>
   Start_iter t e buf = Return ([], errors_New ''timeout while waiting for plugin to start'')"
  by (simp add: Start_iter_def ReadBytes_eof errors_New_def)

lemma Start_iter_exited:
  "newline \<notin> set buf \<Longrightarrow> \<not> t \<Longrightarrow> e \<Longrightarrow>
   Start_iter t e buf = Return ([], errors_New ''plugin exited before we could connect'')"
  by (simp add: Start_iter_def ReadBytes_eof errors_New_def)

lemma Start_iter_quiet:
  "newline \<notin> set buf \<Longrightarrow> \<not> t \<Longrightarrow> \<not> e \<Longrightarrow> Start_iter t e buf = Continue []"
  by (simp add: Start_iter_def ReadBytes_eof)

text \<open>
  An iteration that finds no newline consumes what it has read, so after quiet polls the
  loop is where it began, on an empty buffer.
\<close>

lemma Start_loop_quiet:
  "\<forall>p\<in>set pre. quiet p \<Longrightarrow> newline \<notin> set buf \<Longrightarrow> pre \<noteq> [] \<Longrightarrow>
   Start_loop (pre @ ps) buf = Start_loop ps []"
proof (induction pre arbitrary: buf)
  case Nil
  then show ?case by simp
next
  case (Cons p pre)
  then have it:
    "Start_iter (timeout_fired p) (exited_seen p) (buf @ stdout_written p) = Continue []"
    by (intro Start_iter_quiet) (auto simp: quiet_def)
  show ?case
  proof (cases "pre = []")
    case True
    then show ?thesis using it by simp
  next
    case False
    with Cons it show ?thesis by simp
  qed
qed

lemma Start_loop_after_quiet:
  assumes "\<forall>p\<in>set pre. quiet p"
  shows "Start_loop (pre @ p # post) [] = Start_loop (p # post) []"
proof (cases "pre = []")
  case True
  then show ?thesis by simp
next
  case False
  with assms show ?thesis by (simp add: Start_loop_quiet)
qed

text \<open>The timer fires at some poll, and then the loop has returned.\<close>

lemma Start_loop_returns:
  "\<exists>p\<in>set ps. timeout_fired p \<Longrightarrow> \<exists>r. Start_loop ps buf = Some r"
proof (induction ps arbitrary: buf)
  case Nil
  then show ?case by simp
next
  case (Cons p ps)
  show ?case
  proof (cases "Start_iter (timeout_fired p) (exited_seen p) (buf @ stdout_written p)")
    case (Return r)
    then show ?thesis by simp
  next
    case (Continue rest)
    then have "\<not> timeout_fired p"
      by (auto simp: Start_iter_def Let_def errors_New_def split: prod.splits if_splits)
    with Cons.prems have "\<exists>q\<in>set ps. timeout_fired q" by simp
    from Cons.IH [OF this] Continue show ?thesis by simp
  qed
qed

text \<open>On a command without a process that the operating system starts, \<open>Start\<close> returns
  what the loop returns.\<close>

lemma Start_result:
  "\<not> Process (cmd c) \<Longrightarrow> map_option fst (Start None ps c) = Start_loop ps []"
  by (auto simp: Start_def Start_launch_def cmd_Start_def split: option.splits)

lemma Start_whole_line:
  assumes "\<forall>q\<in>set pre. quiet q"
    and "stdout_written p = l @ newline # rest" and "newline \<notin> set l"
  shows "Start_loop (pre @ p # post) [] = Some (TrimSpace (l @ [newline]), None)"
proof -
  have "Start_iter (timeout_fired p) (exited_seen p) (l @ newline # rest) =
          Return (TrimSpace (l @ [newline]), None)"
    using assms(3) by (simp add: Start_iter_def ReadBytes_append)
  then show ?thesis
    using assms(2) by (simp add: Start_loop_after_quiet [OF assms(1)])
qed

lemma leading_space_table:
  "list_all (\<lambda>w. \<forall>rest. leading_space (w @ rest) = length w) White_Space"
  unfolding leading_space_def White_Space_def
  by simp

lemma leading_space_White:
  "w \<in> set White_Space \<Longrightarrow> leading_space (w @ rest) = length w"
  using leading_space_table by (simp add: list_all_iff)

lemma TrimLeft_White: "w \<in> set White_Space \<Longrightarrow> TrimLeft (w @ rest) = TrimLeft rest"
proof -
  assume w: "w \<in> set White_Space"
  then have "w \<noteq> []" by (auto simp: White_Space_def)
  with leading_space_White [OF w, of rest] show ?thesis
    by (subst TrimLeft.simps) simp
qed

lemma TrimLeft_Nil: "TrimLeft [] = []"
  by (subst TrimLeft.simps) (simp add: leading_space_def White_Space_def)

lemma TrimRight_Nil: "TrimRight [] = []"
  by (subst TrimRight.simps) (simp add: trailing_space_def White_Space_def)

lemma TrimLeft_blank: "set ws \<subseteq> set White_Space \<Longrightarrow> TrimLeft (concat ws) = []"
  by (induction ws) (auto simp: TrimLeft_Nil TrimLeft_White)

lemma TrimSpace_blank: "set ws \<subseteq> set White_Space \<Longrightarrow> TrimSpace (concat ws) = []"
  by (simp add: TrimSpace_def TrimLeft_blank TrimRight_Nil)

text \<open>
  One iteration of the loop, on any buffer: a newline wins over the timer and the exit
  flag, and the timer wins over the exit flag.
\<close>

lemma Start_loop_priority:
  "(newline \<in> set (buf @ stdout_written p) \<longrightarrow>
      Start_loop (p # ps) buf =
        Some (TrimSpace (takeWhile (\<lambda>b. b \<noteq> newline) (buf @ stdout_written p) @ [newline]),
              None))
   \<and> (newline \<notin> set (buf @ stdout_written p) \<and> timeout_fired p \<longrightarrow>
        Start_loop (p # ps) buf =
          Some ([], errors_New ''timeout while waiting for plugin to start''))
   \<and> (newline \<notin> set (buf @ stdout_written p) \<and> \<not> timeout_fired p \<and> exited_seen p \<longrightarrow>
        Start_loop (p # ps) buf =
          Some ([], errors_New ''plugin exited before we could connect''))"
proof (intro conjI impI)
  assume "newline \<in> set (buf @ stdout_written p)"
  then show "Start_loop (p # ps) buf =
      Some (TrimSpace (takeWhile (\<lambda>b. b \<noteq> newline) (buf @ stdout_written p) @ [newline]),
            None)"
    by (simp add: Start_iter_line)
next
  assume "newline \<notin> set (buf @ stdout_written p) \<and> timeout_fired p"
  then have "newline \<notin> set (buf @ stdout_written p)" "timeout_fired p"
    by simp_all
  then show "Start_loop (p # ps) buf =
      Some ([], errors_New ''timeout while waiting for plugin to start'')"
    by (simp add: Start_iter_timeout)
next
  assume "newline \<notin> set (buf @ stdout_written p) \<and> \<not> timeout_fired p \<and> exited_seen p"
  then have "newline \<notin> set (buf @ stdout_written p)" "\<not> timeout_fired p" "exited_seen p"
    by simp_all
  then show "Start_loop (p # ps) buf =
      Some ([], errors_New ''plugin exited before we could connect'')"
    by (simp add: Start_iter_exited)
qed

text \<open>
  C4. \<open>Start\<close> on a command that the operating system starts reaches an iteration of
  its polling loop after iterations in which nothing happened (\<open>pre\<close>); these have
  consumed whatever they read. In that iteration a complete line in the stdout buffer
  wins: when the buffer holds a newline at the call of \<open>ReadBytes\<close>, \<open>Start\<close> returns
  the trimmed line and a nil error, whatever the timer and the exit flag say in that
  iteration. Without a line, a fired timer makes \<open>Start\<close> return the timeout error also
  when the exit flag is set, and the exit flag makes it return its error only when the
  timer has not fired.
\<close>

theorem Start_line_priority:
  assumes "\<not> Process (cmd c)" and "\<forall>q\<in>set pre. quiet q"
  shows "(newline \<in> set (stdout_written p) \<longrightarrow>
            map_option fst (Start None (pre @ p # ps) c) =
              Some (TrimSpace (takeWhile (\<lambda>b. b \<noteq> newline) (stdout_written p) @ [newline]),
                    None))
       \<and> (newline \<notin> set (stdout_written p) \<and> timeout_fired p \<longrightarrow>
            map_option fst (Start None (pre @ p # ps) c) =
              Some ([], errors_New ''timeout while waiting for plugin to start''))
       \<and> (newline \<notin> set (stdout_written p) \<and> \<not> timeout_fired p \<and> exited_seen p \<longrightarrow>
            map_option fst (Start None (pre @ p # ps) c) =
              Some ([], errors_New ''plugin exited before we could connect''))"
proof -
  have "map_option fst (Start None (pre @ p # ps) c) = Start_loop (p # ps) []"
    by (simp only: Start_result [OF assms(1)] Start_loop_after_quiet [OF assms(2)])
  with Start_loop_priority [of "[]" p ps] show ?thesis
    by simp
qed

text \<open>
  The three cases at concrete polls, each after one quiet poll: a line together with a
  fired timer and a set exit flag; no line, the timer fired and the exit flag set; no line
  and the exit flag alone.
\<close>

theorem Start_line_priority_witness:
  "map_option fst
     (Start None
        [\<lparr>timeout_fired = False, exited_seen = False, stdout_written = ''log''\<rparr>,
         \<lparr>timeout_fired = True, exited_seen = True,
          stdout_written = '' 127.0.0.1:10000'' @ [newline]\<rparr>]
        (NewClient \<lparr>Env = [], Process = False, Stdout = None, Stderr = None\<rparr>)) =
     Some (''127.0.0.1:10000'', None)
   \<and> map_option fst
       (Start None
          [\<lparr>timeout_fired = False, exited_seen = False, stdout_written = ''log''\<rparr>,
           \<lparr>timeout_fired = True, exited_seen = True, stdout_written = ''127.0''\<rparr>]
          (NewClient \<lparr>Env = [], Process = False, Stdout = None, Stderr = None\<rparr>)) =
       Some ([], errors_New ''timeout while waiting for plugin to start'')
   \<and> map_option fst
       (Start None
          [\<lparr>timeout_fired = False, exited_seen = False, stdout_written = ''log''\<rparr>,
           \<lparr>timeout_fired = False, exited_seen = True, stdout_written = ''127.0''\<rparr>]
          (NewClient \<lparr>Env = [], Process = False, Stdout = None, Stderr = None\<rparr>)) =
       Some ([], errors_New ''plugin exited before we could connect'')"
proof -
  have 1: "\<not> Process (cmd (NewClient \<lparr>Env = [], Process = False, Stdout = None, Stderr = None\<rparr>))"
    by (simp add: NewClient_def)
  have 2: "\<forall>q\<in>set [\<lparr>timeout_fired = False, exited_seen = False, stdout_written = ''log''\<rparr>].
             quiet q"
    by (simp add: quiet_def newline_def)
  have t: "TrimSpace ('' 127.0.0.1:10000'' @ [newline]) = ''127.0.0.1:10000''"
    by code_simp
  show ?thesis
    using
      Start_line_priority [OF 1 2, of "\<lparr>timeout_fired = True, exited_seen = True,
         stdout_written = '' 127.0.0.1:10000'' @ [newline]\<rparr>" "[]"]
      Start_line_priority [OF 1 2, of "\<lparr>timeout_fired = True, exited_seen = True,
         stdout_written = ''127.0''\<rparr>" "[]"]
      Start_line_priority [OF 1 2, of "\<lparr>timeout_fired = False, exited_seen = True,
         stdout_written = ''127.0''\<rparr>" "[]"]
      t
    by (simp add: newline_def)
qed

text \<open>
  C6. The process writes the line "127.0.0.1:10000" in two pieces and the loop polls in
  between: the first \<open>ReadBytes\<close> finds no newline, returns "127.0.0.1:" with
  \<open>io.EOF\<close> and has consumed it; the second returns "10000" and the newline. \<open>Start\<close>
  returns the address "10000" with a nil error, not the line that was written.
\<close>

theorem Start_split_line:
  "map_option fst
     (Start None
        [\<lparr>timeout_fired = False, exited_seen = False, stdout_written = ''127.0.0.1:''\<rparr>,
         \<lparr>timeout_fired = False, exited_seen = False,
          stdout_written = ''10000'' @ [newline]\<rparr>]
        (NewClient \<lparr>Env = [], Process = False, Stdout = None, Stderr = None\<rparr>)) =
     Some (''10000'', None)"
  by code_simp

text \<open>
  A line that is in the buffer as a whole when the loop first finds a newline is returned
  trimmed.
\<close>

lemma Start_returns_whole_line:
  assumes "\<not> Process (cmd c)"
    and "\<forall>q\<in>set pre. stdout_written q = [] \<and> \<not> timeout_fired q \<and> \<not> exited_seen q"
    and "stdout_written p = l @ newline # rest" and "newline \<notin> set l"
  shows "map_option fst (Start None (pre @ p # post) c) = Some (TrimSpace (l @ [newline]), None)"
proof -
  from assms(2) have "\<forall>q\<in>set pre. quiet q"
    by (simp add: quiet_def)
  from Start_whole_line [OF this assms(3,4)] show ?thesis
    by (simp add: Start_result [OF assms(1)])
qed

text \<open>
  C10. \<open>Start\<close> does not validate the handshake line: when the first line that reaches
  the buffer with its newline consists of white space only (a bare newline is the case
  \<open>ws = []\<close>), \<open>Start\<close> returns the empty address and a nil error, whatever the timer
  and the exit flag say in that iteration.
\<close>

theorem Start_blank_line:
  assumes "\<not> Process (cmd c)"
    and "\<forall>q\<in>set pre. quiet q"
    and "stdout_written p = concat ws @ newline # rest"
    and "set ws \<subseteq> set White_Space" and "newline \<notin> set (concat ws)"
  shows "map_option fst (Start None (pre @ p # post) c) = Some ([], None)"
proof -
  have "[newline] \<in> set White_Space"
    by (simp add: White_Space_def newline_def)
  with assms(4) have "set (ws @ [[newline]]) \<subseteq> set White_Space"
    by simp
  then have "TrimSpace (concat (ws @ [[newline]])) = []"
    by (rule TrimSpace_blank)
  then have "TrimSpace (concat ws @ [newline]) = []"
    by simp
  with Start_whole_line [OF assms(2,3,5), of post] show ?thesis
    by (simp add: Start_result [OF assms(1)])
qed

theorem Start_blank_line_witness:
  "map_option fst
     (Start None [\<lparr>timeout_fired = False, exited_seen = False, stdout_written = [newline]\<rparr>]
        (NewClient \<lparr>Env = [], Process = False, Stdout = None, Stderr = None\<rparr>)) = Some ([], None)
   \<and> map_option fst
       (Start None
          [\<lparr>timeout_fired = False, exited_seen = False, stdout_written = []\<rparr>,
           \<lparr>timeout_fired = True, exited_seen = True,
            stdout_written = concat [[CHR 0x20], [CHR 0xC2, CHR 0xA0], [CHR 0x09]]
              @ newline # ''127.0.0.1:10000''\<rparr>]
          (NewClient \<lparr>Env = [], Process = False, Stdout = None, Stderr = None\<rparr>)) = Some ([], None)"
proof -
  have 1: "\<not> Process (cmd (NewClient \<lparr>Env = [], Process = False, Stdout = None, Stderr = None\<rparr>))"
    by (simp add: NewClient_def)
  have a: "stdout_written \<lparr>timeout_fired = False, exited_seen = False,
              stdout_written = [newline]\<rparr> = concat [] @ newline # []"
    by simp
  have b: "\<forall>q\<in>set [\<lparr>timeout_fired = False, exited_seen = False, stdout_written = []\<rparr>].
             quiet q"
    by (simp add: quiet_def)
  have c: "set [[CHR 0x20], [CHR 0xC2, CHR 0xA0], [CHR 0x09]] \<subseteq> set White_Space"
    by (simp add: White_Space_def)
  have d: "newline \<notin> set (concat [[CHR 0x20], [CHR 0xC2, CHR 0xA0], [CHR 0x09]])"
    by (simp add: newline_def)
  have "map_option fst
     (Start None ([] @ \<lparr>timeout_fired = False, exited_seen = False,
        stdout_written = [newline]\<rparr> # [])
        (NewClient \<lparr>Env = [], Process = False, Stdout = None, Stderr = None\<rparr>)) = Some ([], None)"
    by (rule Start_blank_line [OF 1 _ a]) simp_all
  moreover have "map_option fst
       (Start None
          ([\<lparr>timeout_fired = False, exited_seen = False, stdout_written = []\<rparr>] @
           \<lparr>timeout_fired = True, exited_seen = True,
            stdout_written = concat [[CHR 0x20], [CHR 0xC2, CHR 0xA0], [CHR 0x09]]
              @ newline # ''127.0.0.1:10000''\<rparr> # [])
          (NewClient \<lparr>Env = [], Process = False, Stdout = None, Stderr = None\<rparr>)) = Some ([], None)"
    by (rule Start_blank_line [OF 1 b _ c d]) simp
  ultimately show ?thesis by simp
qed

text \<open>
  C9, as amended. When the operating system fails to create the process, \<open>Start\<close>
  returns that error without a single poll. The flags \<open>exited\<close> and \<open>doneLogging\<close>
  are what they were (false in a new client), the exit watcher and \<open>logStderr\<close> have not
  been spawned and no signal has been sent. The state is not unchanged: the two port
  variables have been appended to \<open>cmd.Env\<close>, and \<open>cmd.Stderr\<close> and \<open>cmd.Stdout\<close>
  point to the two buffers \<open>Start\<close> has made.
\<close>

theorem Start_spawn_error:
  assumes "\<not> Process (cmd c)"
  shows "Start (Some e) ps c =
           Some (([], Some e),
                 c\<lparr>cmd := (cmd c)\<lparr>Env := Env (cmd c) @
                     [''PACKER_PLUGIN_MIN_PORT=10000'', ''PACKER_PLUGIN_MAX_PORT=25000''],
                     Stderr := Some (Suc (buffers c)), Stdout := Some (buffers c)\<rparr>,
                   buffers := buffers c + 2\<rparr>)
       \<and> exited (snd (the (Start (Some e) ps c))) = exited c
       \<and> doneLogging (snd (the (Start (Some e) ps c))) = doneLogging c
       \<and> watcher (snd (the (Start (Some e) ps c))) = watcher c
       \<and> logger (snd (the (Start (Some e) ps c))) = logger c
       \<and> proc (snd (the (Start (Some e) ps c))) = proc c
       \<and> signals (snd (the (Start (Some e) ps c))) = signals c"
  using assms by (simp add: Start_def Start_launch_def cmd_Start_def)

theorem Start_spawn_error_witness:
  "fst (the (Start (Some ''fork/exec: no such file'') []
       (NewClient \<lparr>Env = [], Process = False, Stdout = None, Stderr = None\<rparr>)))
     = ([], Some ''fork/exec: no such file'')
   \<and> \<not> exited (snd (the (Start (Some ''fork/exec: no such file'') []
           (NewClient \<lparr>Env = [], Process = False, Stdout = None, Stderr = None\<rparr>))))
   \<and> \<not> doneLogging (snd (the (Start (Some ''fork/exec: no such file'') []
           (NewClient \<lparr>Env = [], Process = False, Stdout = None, Stderr = None\<rparr>))))
   \<and> watcher (snd (the (Start (Some ''fork/exec: no such file'') []
         (NewClient \<lparr>Env = [], Process = False, Stdout = None, Stderr = None\<rparr>)))) = W_none
   \<and> logger (snd (the (Start (Some ''fork/exec: no such file'') []
         (NewClient \<lparr>Env = [], Process = False, Stdout = None, Stderr = None\<rparr>)))) = L_none"
proof -
  have 1: "\<not> Process (cmd (NewClient \<lparr>Env = [], Process = False, Stdout = None, Stderr = None\<rparr>))"
    by (simp add: NewClient_def)
  from Start_spawn_error [OF 1, of "''fork/exec: no such file''" "[]"]
  show ?thesis by (simp add: NewClient_def)
qed

text \<open>
  C9 as stated fails: after the failed \<open>Start\<close> the client is not in the state it was
  in; its command has the two port variables and the two buffers.
\<close>

theorem Start_spawn_error_changes_cmd:
  "snd (the (Start (Some ''fork/exec: no such file'') []
       (NewClient \<lparr>Env = [], Process = False, Stdout = None, Stderr = None\<rparr>)))
     \<noteq> NewClient \<lparr>Env = [], Process = False, Stdout = None, Stderr = None\<rparr>
   \<and> cmd (snd (the (Start (Some ''fork/exec: no such file'') []
       (NewClient \<lparr>Env = [], Process = False, Stdout = None, Stderr = None\<rparr>)))) =
     \<lparr>Env = [''PACKER_PLUGIN_MIN_PORT=10000'', ''PACKER_PLUGIN_MAX_PORT=25000''],
      Process = False, Stdout = Some 0, Stderr = Some 1\<rparr>"
  by (simp add: Start_def Start_launch_def cmd_Start_def NewClient_def)

section \<open>Properties of the goroutines of a client\<close>

lemmas client_inv_defs =
  client_inv_def started_ok_def watcher_ok_def logger_ok_def kills_ok_def log_ok_def

lemma run_Nil: "run [] c = c"
  by (simp add: run_def)

lemma run_snoc: "run (evs @ [e]) c = step e (run evs c)"
  by (simp add: run_def)

lemma run_append: "run (evs @ evs') c = run evs' (run evs c)"
  by (simp add: run_def)

lemma forwarded_append: "forwarded (es @ es') = forwarded es @ forwarded es'"
  by (induction es rule: forwarded.induct) simp_all

lemma inv_NewClient: "client_inv (NewClient c)"
  by (simp add: client_inv_defs NewClient_def)

text \<open>Each action preserves the invariant.\<close>

lemma Start_launch_eq:
  "snd (Start_launch os c) =
     (if Process (cmd c) \<or> os \<noteq> None
      then c\<lparr>cmd := (cmd c)\<lparr>Env := Env (cmd c) @
             [''PACKER_PLUGIN_MIN_PORT=10000'', ''PACKER_PLUGIN_MAX_PORT=25000''],
             Stderr := Some (Suc (buffers c)), Stdout := Some (buffers c)\<rparr>,
             buffers := buffers c + 2\<rparr>
      else c\<lparr>cmd := (cmd c)\<lparr>Env := Env (cmd c) @
             [''PACKER_PLUGIN_MIN_PORT=10000'', ''PACKER_PLUGIN_MAX_PORT=25000''],
             Stderr := Some (Suc (buffers c)), Stdout := Some (buffers c),
             Process := True\<rparr>,
             buffers := buffers c + 2,
             proc := Running, watcher := W_wait, logger := L_top\<rparr>)"
  by (cases os) (simp_all add: Start_launch_def cmd_Start_def Let_def errors_New_def)

lemma inv_Start: "client_inv c \<Longrightarrow> client_inv (step (EvStart os) c)"
  unfolding step.simps Start_launch_eq client_inv_defs by (elim conjE disjE; simp)

lemma inv_Finish: "client_inv c \<Longrightarrow> client_inv (step (EvFinish st) c)"
  unfolding client_inv_defs by (elim conjE disjE; simp)

lemma inv_StartAbort: "client_inv c \<Longrightarrow> client_inv (step EvStartAbort c)"
  unfolding client_inv_defs by (elim conjE disjE; simp)

lemma inv_KillCall: "client_inv c \<Longrightarrow> client_inv (step EvKillCall c)"
  unfolding client_inv_defs by (elim conjE disjE; simp)

lemma inv_Stderr:
  assumes "client_inv c"
  shows "client_inv (step (EvStderr bs) c)"
proof (cases "proc c = Running")
  case False
  with assms show ?thesis by simp
next
  case True
  from assms have w: "watcher_ok c" and l: "logger_ok c" and s: "started_ok c"
    and k: "kills_ok c" and f: "log_ok c"
    by (simp_all add: client_inv_def)
  from w True have e: "\<not> exited c" "watcher c \<noteq> W_log" "watcher c \<noteq> W_set" "watcher c \<noteq> W_done"
    unfolding watcher_ok_def by blast+
  from l e(1) have d: "\<not> doneLogging c" "logger c \<noteq> L_drain True" "logger c \<noteq> L_set"
      "logger c \<noteq> L_done"
    unfolding logger_ok_def by blast+
  from s True have p: "Process (cmd c)"
    unfolding started_ok_def by auto
  from f have "forwarded (log_sink c) @ stderr_buf c @ bs = stderr_all c @ bs"
    unfolding log_ok_def by (metis append.assoc)
  with True e d p k show ?thesis
    unfolding client_inv_defs by simp
qed

lemma inv_Watcher: "client_inv c \<Longrightarrow> client_inv (step EvWatcher c)"
  unfolding client_inv_defs
  by (cases "watcher c"; cases "proc c"; elim conjE disjE;
      simp add: watcher_step_def forwarded_append)

lemma inv_Logger:
  assumes "client_inv c"
  shows "client_inv (step EvLogger c)"
proof -
  from assms have w: "watcher_ok c" and l: "logger_ok c" and s: "started_ok c"
    and k: "kills_ok c" and f: "log_ok c"
    by (simp_all add: client_inv_def)
  show ?thesis
  proof (cases "logger c")
    case L_none
    with assms show ?thesis by (simp add: logStderr_step_def)
  next
    case L_top
    with w l s k f show ?thesis
      unfolding client_inv_defs by (elim conjE disjE; simp add: logStderr_step_def Exited_def)
  next
    case (L_drain d)
    obtain line eof rest where r: "ReadString newline (stderr_buf c) = ((line, eof), rest)"
      by (metis prod.exhaust)
    then have b: "line @ rest = stderr_buf c" and z: "eof \<longrightarrow> rest = []"
      using ReadBytes_forward [of newline "stderr_buf c" line eof rest]
      by (simp_all add: ReadString_def)
    from b have z': "stderr_buf c = [] \<longrightarrow> rest = []"
      by auto
    from f b have g: "forwarded (log_sink c) @ line @ rest = stderr_all c"
      by (simp add: log_ok_def)
    let ?c = "c\<lparr>stderr_buf := rest,
                 log_sink := (if line \<noteq> [] then log_sink c @ [StderrLine line] else log_sink c)\<rparr>"
    have st: "step EvLogger c =
        (if eof then ?c\<lparr>logger := (if d then L_set else L_top)\<rparr> else ?c)"
      using L_drain r by (simp add: logStderr_step_def)
    from g have g': "log_ok ?c"
      by (cases "line = []") (simp_all add: log_ok_def forwarded_append)
    have "started_ok ?c" "watcher_ok ?c" "kills_ok ?c"
      using s w k L_drain by (simp_all add: started_ok_def watcher_ok_def kills_ok_def)
    moreover have "logger_ok ?c"
      using l z' L_drain by (simp add: logger_ok_def)
    ultimately have i: "client_inv ?c"
      using g' by (simp add: client_inv_def)
    show ?thesis
    proof (cases eof)
      case False
      with st i show ?thesis by simp
    next
      case True
      with z have "rest = []" by simp
      with i L_drain True l s show ?thesis
        unfolding st client_inv_defs by (cases d) simp_all
    qed
  next
    case L_set
    with w l s k f show ?thesis
      unfolding client_inv_defs by (elim conjE disjE; simp add: logStderr_step_def)
  next
    case L_done
    with assms show ?thesis by (simp add: logStderr_step_def)
  qed
qed

lemma kills_update:
  assumes "K \<in> set (ks[j := k'])" and "K \<noteq> k'"
  shows "K \<in> set ks"
  using assms set_update_subset_insert [of ks j k'] by auto

lemma inv_Kill:
  assumes "client_inv c"
  shows "client_inv (step (EvKill j) c)"
proof (cases "j < length (kills c)")
  case False
  with assms show ?thesis by (simp add: Kill_step_def)
next
  case True
  from assms have w: "watcher_ok c" and l: "logger_ok c" and s: "started_ok c"
    and k: "kills_ok c" and f: "log_ok c"
    by (simp_all add: client_inv_def)
  from True have m: "kills c ! j \<in> set (kills c)"
    by simp
  have frame: "started_ok c'" "watcher_ok c'" "logger_ok c'" "log_ok c'"
    if "c' = c\<lparr>signals := n, kills := ks\<rparr>" for c' n ks
    using that s w l f by (simp_all add: started_ok_def watcher_ok_def logger_ok_def log_ok_def)
  have upd: "kills_ok (c\<lparr>signals := n, kills := (kills c)[j := k']\<rparr>)"
    if "k' = K_notify \<or> k' = K_ret_waited \<longrightarrow> doneLogging c" for n k'
    using that k kills_update [of _ "kills c" j k']
    unfolding kills_ok_def by (simp; blast)
  show ?thesis
  proof (cases "kills c ! j")
    case K_entry
    have "step (EvKill j) c =
        c\<lparr>signals := signals c,
          kills := (kills c)[j := (if Process (cmd c) then K_signal else K_ret_noop)]\<rparr>"
      using True K_entry by (simp add: Kill_step_def)
    with frame [OF this] upd [of "if Process (cmd c) then K_signal else K_ret_noop" "signals c"]
    show ?thesis by (simp add: client_inv_def)
  next
    case K_signal
    have "step (EvKill j) c = c\<lparr>signals := Suc (signals c), kills := (kills c)[j := K_poll]\<rparr>"
      using True K_signal by (simp add: Kill_step_def)
    with frame [OF this] upd [of K_poll "Suc (signals c)"]
    show ?thesis by (simp add: client_inv_def)
  next
    case K_poll
    show ?thesis
    proof (cases "doneLogging c")
      case False
      with True K_poll assms show ?thesis by (simp add: Kill_step_def)
    next
      case d: True
      have "step (EvKill j) c = c\<lparr>signals := signals c, kills := (kills c)[j := K_notify]\<rparr>"
        using True K_poll d by (simp add: Kill_step_def)
      with frame [OF this] upd [of K_notify "signals c"] d
      show ?thesis by (simp add: client_inv_def)
    qed
  next
    case K_notify
    with m k have d: "doneLogging c"
      by (auto simp: kills_ok_def)
    have "step (EvKill j) c = c\<lparr>signals := signals c, kills := (kills c)[j := K_ret_waited]\<rparr>"
      using True K_notify by (simp add: Kill_step_def)
    with frame [OF this] upd [of K_ret_waited "signals c"] d
    show ?thesis by (simp add: client_inv_def)
  next
    case K_ret_noop
    with True assms show ?thesis by (simp add: Kill_step_def)
  next
    case K_ret_waited
    with True assms show ?thesis by (simp add: Kill_step_def)
  qed
qed

lemma inv_step: "client_inv c \<Longrightarrow> client_inv (step e c)"
  by (cases e) (simp_all only: inv_Start inv_StartAbort inv_Stderr inv_Finish inv_Watcher
        inv_Logger inv_KillCall inv_Kill)

lemma inv_run: "client_inv c \<Longrightarrow> client_inv (run evs c)"
  by (induction evs rule: rev_induct) (simp_all add: run_Nil run_snoc inv_step)

lemma inv_reachable: "client_inv (run evs (NewClient c))"
  by (simp add: inv_run inv_NewClient)

lemma doneLogging_step: "doneLogging c \<Longrightarrow> doneLogging (step e c)"
proof (cases e)
  case (EvStart os)
  then show "doneLogging c \<Longrightarrow> ?thesis" by (simp add: Start_launch_eq)
next
  case EvWatcher
  then show "doneLogging c \<Longrightarrow> ?thesis"
    by (simp add: watcher_step_def split: watcher_pc.splits proc_state.splits)
next
  case EvLogger
  then show "doneLogging c \<Longrightarrow> ?thesis"
    by (simp add: logStderr_step_def Let_def split: logger_pc.splits prod.splits)
next
  case (EvKill j)
  then show "doneLogging c \<Longrightarrow> ?thesis"
    by (simp add: Kill_step_def split: kill_pc.splits)
qed simp_all

lemma doneLogging_run: "doneLogging c \<Longrightarrow> doneLogging (run evs c)"
  by (induction evs rule: rev_induct) (simp_all add: run_Nil run_snoc doneLogging_step)

lemma Process_step: "Process (cmd c) \<Longrightarrow> Process (cmd (step e c))"
proof (cases e)
  case (EvStart os)
  then show "Process (cmd c) \<Longrightarrow> ?thesis" by (simp add: Start_launch_eq)
next
  case EvWatcher
  then show "Process (cmd c) \<Longrightarrow> ?thesis"
    by (simp add: watcher_step_def split: watcher_pc.splits proc_state.splits)
next
  case EvLogger
  then show "Process (cmd c) \<Longrightarrow> ?thesis"
    by (simp add: logStderr_step_def Let_def split: logger_pc.splits prod.splits)
next
  case (EvKill j)
  then show "Process (cmd c) \<Longrightarrow> ?thesis"
    by (simp add: Kill_step_def split: kill_pc.splits)
qed simp_all

text \<open>Only \<open>Kill\<close> touches the activations of \<open>Kill\<close>.\<close>

lemma kills_step:
  "e \<noteq> EvKillCall \<Longrightarrow> \<forall>j. e \<noteq> EvKill j \<Longrightarrow> kills (step e c) = kills c"
proof (cases e)
  case (EvStart os)
  then show ?thesis by (simp add: Start_launch_eq)
next
  case EvWatcher
  then show ?thesis
    by (simp add: watcher_step_def split: watcher_pc.splits proc_state.splits)
next
  case EvLogger
  then show ?thesis
    by (simp add: logStderr_step_def Let_def split: logger_pc.splits prod.splits)
qed simp_all

text \<open>
  An activation of \<open>Kill\<close> on a client with a process never takes the return of the
  test \<open>c.cmd.Process == nil\<close>.
\<close>

lemma Kill_not_noop_step:
  assumes "Process (cmd c)" and "j < length (kills c)" and "kills c ! j \<noteq> K_ret_noop"
  shows "j < length (kills (step e c)) \<and> kills (step e c) ! j \<noteq> K_ret_noop"
proof (cases e)
  case (EvKill i)
  show ?thesis
  proof (cases "i < length (kills c)")
    case False
    with assms EvKill show ?thesis by (simp add: Kill_step_def)
  next
    case True
    with assms EvKill show ?thesis
      by (cases "kills c ! i"; cases "i = j") (simp_all add: Kill_step_def)
  qed
next
  case EvKillCall
  with assms show ?thesis by (simp add: nth_append)
qed (use assms kills_step [of e c] in simp_all)

lemma Kill_not_noop_run:
  assumes "Process (cmd c)" and "j < length (kills c)" and "kills c ! j \<noteq> K_ret_noop"
  shows "Process (cmd (run evs c)) \<and> j < length (kills (run evs c))
       \<and> kills (run evs c) ! j \<noteq> K_ret_noop"
proof (induction evs rule: rev_induct)
  case Nil
  from assms show ?case by (simp add: run_Nil)
next
  case (snoc e evs)
  then show ?case
    using Kill_not_noop_step [of "run evs c" j e] Process_step [of "run evs c" e]
    by (simp add: run_snoc)
qed

text \<open>
  C7. In every state a client reaches from \<open>NewClient\<close>: once \<open>doneLogging\<close> is
  true it is true in every later state, and \<open>doneLogging\<close> implies that \<open>exited\<close>
  is true and that the stderr buffer has been read to its end.
\<close>

theorem doneLogging_monotonic_drained:
  "(doneLogging (run evs (NewClient c)) \<longrightarrow>
      doneLogging (run (evs @ later) (NewClient c)))
   \<and> (doneLogging (run evs (NewClient c)) \<longrightarrow>
        exited (run evs (NewClient c)) \<and> stderr_buf (run evs (NewClient c)) = [])"
proof (rule conjI; rule impI)
  assume "doneLogging (run evs (NewClient c))"
  then show "doneLogging (run (evs @ later) (NewClient c))"
    by (simp add: run_append doneLogging_run)
next
  assume "doneLogging (run evs (NewClient c))"
  with inv_reachable [of evs c]
  show "exited (run evs (NewClient c)) \<and> stderr_buf (run evs (NewClient c)) = []"
    by (simp add: client_inv_def logger_ok_def)
qed

text \<open>
  C8. \<open>Kill\<close> is called on a client whose process has been started (\<open>cmd.Process\<close>
  is set at the call). In every later state in which this activation of \<open>Kill\<close> has
  returned, \<open>doneLogging\<close> is true and everything the process has written to stderr
  has been forwarded to the log sink.
\<close>

theorem Kill_waits_for_doneLogging:
  assumes "Process (cmd (run evs (NewClient c)))"
    and "j = length (kills (run evs (NewClient c)))"
    and "kills (run (evs @ EvKillCall # later) (NewClient c)) ! j = K_ret_noop
       \<or> kills (run (evs @ EvKillCall # later) (NewClient c)) ! j = K_ret_waited"
  shows "doneLogging (run (evs @ EvKillCall # later) (NewClient c))
       \<and> forwarded (log_sink (run (evs @ EvKillCall # later) (NewClient c))) =
           stderr_all (run (evs @ EvKillCall # later) (NewClient c))"
proof -
  let ?c0 = "run evs (NewClient c)"
  let ?c1 = "step EvKillCall ?c0"
  let ?c = "run (evs @ EvKillCall # later) (NewClient c)"
  have c: "?c = run later ?c1"
    by (simp add: run_def)
  have "Process (cmd ?c1)" "j < length (kills ?c1)" "kills ?c1 ! j \<noteq> K_ret_noop"
    using assms(1,2) by simp_all
  from Kill_not_noop_run [OF this, of later]
  have j: "j < length (kills ?c)" and "kills ?c ! j \<noteq> K_ret_noop"
    by (simp_all add: c)
  with assms(3) have "kills ?c ! j = K_ret_waited"
    by simp
  with j have "K_ret_waited \<in> set (kills ?c)"
    by (metis nth_mem)
  moreover have i: "client_inv ?c"
    by (rule inv_reachable)
  ultimately have d: "doneLogging ?c"
    by (simp add: client_inv_def kills_ok_def)
  with i have "stderr_buf ?c = []"
    by (simp add: client_inv_def logger_ok_def)
  moreover from i have "forwarded (log_sink ?c) @ stderr_buf ?c = stderr_all ?c"
    by (simp add: client_inv_def log_ok_def)
  ultimately show ?thesis
    using d by simp
qed


text \<open>
  The run \<open>killed_run\<close> sets \<open>doneLogging\<close>; a second \<open>Start\<close>, late steps
  and a late write do not unset it.
\<close>

theorem doneLogging_monotonic_drained_witness:
  "doneLogging (run ([EvStart None, EvStderr ''boom'', EvKillCall] @ killed_run)
      (NewClient \<lparr>Env = [], Process = False, Stdout = None, Stderr = None\<rparr>))
   \<and> doneLogging (run (([EvStart None, EvStderr ''boom'', EvKillCall] @ killed_run)
        @ [EvStart None, EvLogger, EvStderr ''late'', EvWatcher])
      (NewClient \<lparr>Env = [], Process = False, Stdout = None, Stderr = None\<rparr>))
   \<and> exited (run ([EvStart None, EvStderr ''boom'', EvKillCall] @ killed_run)
      (NewClient \<lparr>Env = [], Process = False, Stdout = None, Stderr = None\<rparr>))
   \<and> stderr_buf (run ([EvStart None, EvStderr ''boom'', EvKillCall] @ killed_run)
      (NewClient \<lparr>Env = [], Process = False, Stdout = None, Stderr = None\<rparr>)) = []"
proof -
  have "doneLogging (run ([EvStart None, EvStderr ''boom'', EvKillCall] @ killed_run)
      (NewClient \<lparr>Env = [], Process = False, Stdout = None, Stderr = None\<rparr>))"
    by code_simp
  with doneLogging_monotonic_drained
    [of "[EvStart None, EvStderr ''boom'', EvKillCall] @ killed_run"
      "\<lparr>Env = [], Process = False, Stdout = None, Stderr = None\<rparr>" "[EvStart None, EvLogger, EvStderr ''late'', EvWatcher]"]
  show ?thesis by blast
qed

text \<open>
  In \<open>killed_run\<close> the process writes before and after the call of \<open>Kill\<close>; when
  \<open>Kill\<close> has returned the log holds all of it.
\<close>

theorem Kill_waits_for_doneLogging_witness:
  "Process (cmd (run [EvStart None, EvStderr ''boom''] (NewClient \<lparr>Env = [], Process = False, Stdout = None, Stderr = None\<rparr>)))
   \<and> kills (run ([EvStart None, EvStderr ''boom''] @ EvKillCall # killed_run)
        (NewClient \<lparr>Env = [], Process = False, Stdout = None, Stderr = None\<rparr>)) ! 0 = K_ret_waited
   \<and> doneLogging (run ([EvStart None, EvStderr ''boom''] @ EvKillCall # killed_run)
        (NewClient \<lparr>Env = [], Process = False, Stdout = None, Stderr = None\<rparr>))
   \<and> forwarded (log_sink (run ([EvStart None, EvStderr ''boom''] @ EvKillCall # killed_run)
        (NewClient \<lparr>Env = [], Process = False, Stdout = None, Stderr = None\<rparr>))) = ''boom!'' @ [newline] @ ''x''
   \<and> stderr_all (run ([EvStart None, EvStderr ''boom''] @ EvKillCall # killed_run)
        (NewClient \<lparr>Env = [], Process = False, Stdout = None, Stderr = None\<rparr>)) = ''boom!'' @ [newline] @ ''x''"
proof -
  have 1: "Process (cmd (run [EvStart None, EvStderr ''boom'']
      (NewClient \<lparr>Env = [], Process = False, Stdout = None, Stderr = None\<rparr>)))"
    by code_simp
  have 2: "0 = length (kills (run [EvStart None, EvStderr ''boom'']
      (NewClient \<lparr>Env = [], Process = False, Stdout = None, Stderr = None\<rparr>)))"
    by code_simp
  have 3: "kills (run ([EvStart None, EvStderr ''boom''] @ EvKillCall # killed_run)
        (NewClient \<lparr>Env = [], Process = False, Stdout = None, Stderr = None\<rparr>)) ! 0 = K_ret_waited"
    by code_simp
  have 4: "stderr_all (run ([EvStart None, EvStderr ''boom''] @ EvKillCall # killed_run)
        (NewClient \<lparr>Env = [], Process = False, Stdout = None, Stderr = None\<rparr>)) = ''boom!'' @ [newline] @ ''x''"
    by code_simp
  from Kill_waits_for_doneLogging [OF 1 2 disjI2, OF 3] 1 3 4 show ?thesis
    by simp
qed

section \<open>Properties of Start beside the goroutines\<close>















section \<open>Properties of CleanupClients\<close>



































lemma CleanupClients_returns_spawned_first:
  "cleanup (world_run spawned_first
      (startup [\<lparr>Env = [], Process = False, Stdout = None, Stderr = None\<rparr>,
                \<lparr>Env = [], Process = False, Stdout = None, Stderr = None\<rparr>])) = C_ret"
  by code_simp

section \<open>Properties of the environment stubs\<close>

text \<open>
  C2. \<open>Environment.Ui\<close> on a connection that is shut down, with a dialer that reaches
  nobody: the error of \<open>Call\<close> and the error of \<open>rpc.Dial\<close> are both dropped, and
  the caller receives a \<open>Ui\<close> stub around a nil client. The result of the method has no
  error component.
\<close>

theorem Ui_swallows_errors:
  "Environment_Ui call_shut_down dial_refused () = (Ui None, ())"
  by (simp add: Environment_Ui_def call_shut_down_def dial_refused_def)

text \<open>\<open>Environment.Builder\<close> reports both failures to its caller.\<close>

lemma Builder_reports_call_error:
  "call ''Environment.Builder'' name [] w = ((reply, Some e), w1) \<Longrightarrow>
   Environment_Builder call dial name w = ((None, Some e), w1)"
  by (simp add: Environment_Builder_def)

lemma Builder_reports_dial_error:
  "call ''Environment.Builder'' name [] w = ((reply, None), w1) \<Longrightarrow>
   dial ''tcp'' reply w1 = ((client, Some e), w2) \<Longrightarrow>
   Environment_Builder call dial name w = ((None, Some e), w2)"
  by (simp add: Environment_Builder_def)

text \<open>
  C3, as amended. Over an open connection to a server that has registered
  \<open>EnvironmentServer.Cli\<close>, a call of the stub's \<open>Cli\<close> leaves the implementation in
  the state of exactly one call of its \<open>Cli\<close> on the same argument list. When the
  implementation returns no error the caller receives its exit code and a nil error. When
  it returns an error the reply is not transmitted: the caller receives the exit code 0
  and the message of the error (an error with the empty message arrives as no error,
  with the exit code).
\<close>

theorem Cli_round_trip:
  assumes "Cli impl args w = ((code, err), w1)"
  shows "Environment_Cli
           (rpc_Call True ''Environment.Cli'' (EnvironmentServer_Cli \<lparr>env = impl\<rparr>) 0) args w =
         ((if err = None \<or> err = Some [] then code else 0,
           if err = Some [] then None else err), w1)"
  using assms
  by (auto simp: Environment_Cli_def rpc_Call_def EnvironmentServer_Cli_def Let_def
        split: option.splits)

text \<open>An implementation that records its calls has recorded one call, with the arguments.\<close>

theorem Cli_round_trip_witness:
  "Environment_Cli
     (rpc_Call True ''Environment.Cli'' (EnvironmentServer_Cli \<lparr>env = recording_env\<rparr>) 0)
     [''build'', ''x.json''] [] = ((2, None), [[''build'', ''x.json'']])"
proof -
  have "Cli recording_env [''build'', ''x.json''] [] = ((2, None), [[''build'', ''x.json'']])"
    by (simp add: recording_env_def)
  from Cli_round_trip [OF this] show ?thesis by simp
qed

text \<open>
  C3 as stated fails: the implementation returns the exit code 1 with an error, and the
  caller of the stub receives the exit code 0 with that error.
\<close>

theorem Cli_error_drops_exit_code:
  "Cli failing_env [''build''] () = ((1, errors_New ''boom''), ())
   \<and> Environment_Cli
       (rpc_Call True ''Environment.Cli'' (EnvironmentServer_Cli \<lparr>env = failing_env\<rparr>) 0)
       [''build''] () = ((0, errors_New ''boom''), ())
   \<and> Environment_Cli
       (rpc_Call True ''Environment.Cli'' (EnvironmentServer_Cli \<lparr>env = failing_env\<rparr>) 0)
       [''build''] () \<noteq> Cli failing_env [''build''] ()"
  by (simp add: Environment_Cli_def rpc_Call_def EnvironmentServer_Cli_def failing_env_def
        errors_New_def)

end
